theory Spec2Isabelle
  imports Main "HOL-Library.Word" "HOL-Library.Multiset"
begin

section \<open>The Item model and its collection\<close>

text \<open>
  \<^verbatim>\<open>models/item.js\<close> declares one schema, \<^verbatim>\<open>{ name: { type: String, required: true } }\<close>.
  A document carries the identifier the driver gives it (a 12-byte ObjectId) and the
  \<^verbatim>\<open>name\<close> field. The value bound to \<^verbatim>\<open>name\<close> by \<^verbatim>\<open>const { name } = req.body\<close> is
  \<^verbatim>\<open>undefined\<close> (the field is absent), a string, or, with the extended parser of
  \<^verbatim>\<open>express.urlencoded\<close>, an array or an object. \<open>Structured\<close> is an array or object
  that the String type of the schema refuses to cast; a structured value that the cast
  accepts is stored as the text it is cast to, and is the request that submits that text.
\<close>

type_synonym object_id = "96 word"

datatype field = Undefined | Str string | Structured

text \<open>\<^verbatim>\<open>!name\<close>: only \<^verbatim>\<open>undefined\<close> and the empty string are falsy.\<close>

fun falsy :: "field \<Rightarrow> bool" where
  "falsy Undefined = True"
| "falsy (Str s) = (s = [])"
| "falsy Structured = False"

fun nonempty_string :: "field \<Rightarrow> bool" where
  "nonempty_string (Str s) = (s \<noteq> [])"
| "nonempty_string Undefined = False"
| "nonempty_string Structured = False"

record item =
  item_id :: object_id
  item_name :: field

text \<open>The collection, in the store's natural (insertion) order.\<close>

type_synonym store = "item list"

text \<open>The store keeps a unique index on the identifier.\<close>

definition unique_ids :: "store \<Rightarrow> bool" where
  "unique_ids s = distinct (map item_id s)"

text \<open>The invariant of the data model: every persisted item has a non-empty name.\<close>

definition names_nonempty :: "store \<Rightarrow> bool" where
  "names_nonempty s = list_all (\<lambda>d. nonempty_string (item_name d)) s"

section \<open>The store operations the controller calls\<close>

text \<open>
  What a request cannot see in advance is taken from an environment: whether the store
  answers, and which identifier the driver generates for a new document.
\<close>

record env =
  reachable :: bool
  generated_id :: object_id

datatype error = StoreUnreachable | ValidationError | CastError | DuplicateKey | TypeError

text \<open>\<^verbatim>\<open>Item.find()\<close>: every document of the collection.\<close>

definition Item_find :: "env \<Rightarrow> store \<Rightarrow> error + item list" where
  "Item_find e s = (if reachable e then Inr s else Inl StoreUnreachable)"

text \<open>\<^verbatim>\<open>new Item({ name })\<close>: a document with a generated identifier, not yet saved.\<close>

definition new_Item :: "env \<Rightarrow> field \<Rightarrow> item" where
  "new_Item e n = \<lparr>item_id = generated_id e, item_name = n\<rparr>"

text \<open>
  \<^verbatim>\<open>doc.save()\<close>: validation runs first (it rejects a name that is absent, that is the
  empty string, or that is no string), then the insert is sent; the unique index rejects an
  identifier that is already there.
\<close>

definition Item_save :: "env \<Rightarrow> item \<Rightarrow> store \<Rightarrow> error + store" where
  "Item_save e d s =
     (if \<not> nonempty_string (item_name d) then Inl ValidationError
      else if \<not> reachable e then Inl StoreUnreachable
      else if item_id d \<in> set (map item_id s) then Inl DuplicateKey
      else Inr (s @ [d]))"

text \<open>
  An identifier arrives as the text of a route parameter. It is cast to an ObjectId
  before the query is sent: 24 hexadecimal digits, in either case.
\<close>

definition hex_digit :: "char \<Rightarrow> nat option" where
  "hex_digit c =
     (let n = (of_char c :: nat) in
      if 48 \<le> n \<and> n \<le> 57 then Some (n - 48)
      else if 97 \<le> n \<and> n \<le> 102 then Some (n - 87)
      else if 65 \<le> n \<and> n \<le> 70 then Some (n - 55)
      else None)"

fun hex_value :: "nat \<Rightarrow> string \<Rightarrow> nat option" where
  "hex_value acc [] = Some acc"
| "hex_value acc (c # cs) =
     (case hex_digit c of None \<Rightarrow> None | Some d \<Rightarrow> hex_value (16 * acc + d) cs)"

definition castObjectId :: "string \<Rightarrow> object_id option" where
  "castObjectId t =
     (if length t = 24 then map_option of_nat (hex_value 0 t) else None)"

fun delete_first :: "object_id \<Rightarrow> store \<Rightarrow> store" where
  "delete_first oid [] = []"
| "delete_first oid (d # ds) = (if item_id d = oid then ds else d # delete_first oid ds)"

text \<open>
  \<^verbatim>\<open>Item.findByIdAndDelete(id)\<close>: removes the document with that identifier and returns
  it, or returns \<^verbatim>\<open>null\<close> when there is none. A text that is no ObjectId is a cast error.
\<close>

definition Item_findByIdAndDelete ::
  "env \<Rightarrow> string \<Rightarrow> store \<Rightarrow> error + (item option \<times> store)" where
  "Item_findByIdAndDelete e t s =
     (case castObjectId t of
        None \<Rightarrow> Inl CastError
      | Some oid \<Rightarrow>
          if \<not> reachable e then Inl StoreUnreachable
          else Inr (find (\<lambda>d. item_id d = oid) s, delete_first oid s))"

section \<open>Requests, responses and the outcome of a handler\<close>

text \<open>
  \<^verbatim>\<open>req.body\<close> is \<open>None\<close> when no body was parsed (it is then \<^verbatim>\<open>undefined\<close>), and otherwise the
  parsed object, of which the handlers read the \<^verbatim>\<open>name\<close> property only.
\<close>

record request =
  req_body :: "field option"
  params_id :: string

text \<open>The name a request submits: absent when the body is, or when the body has none.\<close>

definition body_name :: "request \<Rightarrow> field" where
  "body_name req = (case req_body req of None \<Rightarrow> Undefined | Some name \<Rightarrow> name)"

datatype response =
  Rendered string "item list"
| Redirected nat string
| Sent nat string

definition res_render :: "string \<Rightarrow> item list \<Rightarrow> response" where
  "res_render view items = Rendered view items"

definition res_redirect :: "string \<Rightarrow> response" where
  "res_redirect url = Redirected 302 url"

definition res_status_send :: "nat \<Rightarrow> string \<Rightarrow> response" where
  "res_status_send code body = Sent code body"

datatype store_call = Find | Save field | FindByIdAndDelete string

text \<open>
  A handler is run on the store as it is and leaves: a reply (\<open>Inr\<close> the response written
  to \<^verbatim>\<open>res\<close>, \<open>Inl\<close> an exception that left the handler uncaught), the store afterwards, and
  the calls it made to the store, in order.
\<close>

record outcome =
  reply :: "error + response"
  store_after :: store
  calls :: "store_call list"

text \<open>\<^verbatim>\<open>try { ... } catch (err) { ... }\<close> around a handler's body.\<close>

definition try_catch :: "outcome \<Rightarrow> (error \<Rightarrow> response) \<Rightarrow> outcome" where
  "try_catch body handler =
     (case reply body of
        Inl err \<Rightarrow> body\<lparr>reply := Inr (handler err)\<rparr>
      | Inr r \<Rightarrow> body)"

section \<open>The controller\<close>

definition getItems :: "env \<Rightarrow> request \<Rightarrow> store \<Rightarrow> outcome" where
  "getItems e req s =
     try_catch
       (case Item_find e s of
          Inl err \<Rightarrow> \<lparr>reply = Inl err, store_after = s, calls = [Find]\<rparr>
        | Inr items \<Rightarrow>
            \<lparr>reply = Inr (res_render ''index'' items), store_after = s, calls = [Find]\<rparr>)
       (\<lambda>err. res_status_send 500 ''Error fetching items'')"

text \<open>
  \<^verbatim>\<open>const { name } = req.body\<close> is inside the \<^verbatim>\<open>try\<close>: destructuring \<^verbatim>\<open>undefined\<close> throws a
  TypeError, which the \<^verbatim>\<open>catch\<close> of the handler answers.
\<close>

definition addItem :: "env \<Rightarrow> request \<Rightarrow> store \<Rightarrow> outcome" where
  "addItem e req s =
     try_catch
       (case req_body req of
          None \<Rightarrow> \<lparr>reply = Inl TypeError, store_after = s, calls = []\<rparr>
        | Some name \<Rightarrow>
            if falsy name then \<lparr>reply = Inr (res_redirect ''/''), store_after = s, calls = []\<rparr>
            else
              (case Item_save e (new_Item e name) s of
                 Inl err \<Rightarrow> \<lparr>reply = Inl err, store_after = s, calls = [Save name]\<rparr>
               | Inr s' \<Rightarrow>
                   \<lparr>reply = Inr (res_redirect ''/''), store_after = s', calls = [Save name]\<rparr>))
       (\<lambda>err. res_status_send 500 ''Error saving item'')"

definition deleteItem :: "env \<Rightarrow> request \<Rightarrow> store \<Rightarrow> outcome" where
  "deleteItem e req s =
     try_catch
       (let id = params_id req in
        case Item_findByIdAndDelete e id s of
          Inl err \<Rightarrow> \<lparr>reply = Inl err, store_after = s, calls = [FindByIdAndDelete id]\<rparr>
        | Inr (found, s') \<Rightarrow>
            \<lparr>reply = Inr (res_redirect ''/''), store_after = s',
             calls = [FindByIdAndDelete id]\<rparr>)
       (\<lambda>err. res_status_send 500 ''Error deleting item'')"

section \<open>Sequences of requests\<close>

datatype operation = ListOp | AddOp | DeleteOp

fun handle :: "operation \<Rightarrow> env \<Rightarrow> request \<Rightarrow> store \<Rightarrow> outcome" where
  "handle ListOp = getItems"
| "handle AddOp = addItem"
| "handle DeleteOp = deleteItem"

text \<open>
  Requests served one after the other, each on the store the one before left: the replies
  in order, and the store at the end.
\<close>

fun run_ops ::
  "(operation \<times> env \<times> request) list \<Rightarrow> store \<Rightarrow> (error + response) list \<times> store" where
  "run_ops [] s = ([], s)"
| "run_ops ((op, e, req) # rest) s =
     (let out = handle op e req s;
          (rs, s') = run_ops rest (store_after out)
      in (reply out # rs, s'))"

definition run_adds :: "(env \<times> request) list \<Rightarrow> store \<Rightarrow> (error + response) list \<times> store" where
  "run_adds adds s = run_ops (map (\<lambda>(e, req). (AddOp, e, req)) adds) s"

section \<open>Start-up\<close>

text \<open>
  \<^verbatim>\<open>app.js\<close> is a script that runs to completion; what it leaves pending runs afterwards,
  from the event loop. \<^verbatim>\<open>connectToDatabase\<close> is an \<^verbatim>\<open>async\<close> function: a call runs its body
  up to the \<^verbatim>\<open>await\<close> and returns a promise to the caller; the rest of the body is resumed
  from the event loop once the awaited promise has settled. \<^verbatim>\<open>app.js\<close> calls it without
  \<^verbatim>\<open>await\<close> and without using the promise. An exception that nothing catches ends the
  process with exit code 1.
\<close>

datatype port = PortNumber nat | PortText string

datatype event =
    DotenvConfig
  | ConnectStarted
  | ConnectSettled bool
  | LogConnected
  | LogConnectionFailed
  | Exit nat
  | ExpressCreated
  | ViewEngineSet
  | UrlencodedUsed
  | StaticUsed
  | RoutesUsed
  | ListenStarted port
  | LogListening port
  | UncaughtException

record async_call =
  until_await :: "event list"
  resumed :: "bool \<Rightarrow> event list"

definition connectToDatabase :: async_call where
  "connectToDatabase =
     \<lparr>until_await = [ConnectStarted],
      resumed = (\<lambda>connected.
        if connected then [LogConnected] else [LogConnectionFailed, Exit 1])\<rparr>"

text \<open>\<^verbatim>\<open>process.env.PORT || 3000\<close>: an unset and an empty variable give the default.\<close>

definition port_or_default :: "string option \<Rightarrow> port" where
  "port_or_default v =
     (case v of
        None \<Rightarrow> PortNumber 3000
      | Some t \<Rightarrow> if t = [] then PortNumber 3000 else PortText t)"

text \<open>
  \<^verbatim>\<open>app.listen(port, callback)\<close> is outside any \<^verbatim>\<open>try\<close>, and the port reaches it unchecked. It
  either starts the listener (the callback is then run from the event loop), or throws in
  the script, or reports the failure later as an \<^verbatim>\<open>error\<close> event, which nothing handles.
  A port number above 65535 always makes it throw; for the rest, which of the three happens
  is taken from the environment.
\<close>

datatype listen_result = Listens | Throws | FailsLater

definition is_digit :: "char \<Rightarrow> bool" where
  "is_digit c = (48 \<le> (of_char c :: nat) \<and> (of_char c :: nat) \<le> 57)"

definition decimal :: "string \<Rightarrow> nat" where
  "decimal t = foldl (\<lambda>acc c. 10 * acc + ((of_char c :: nat) - 48)) 0 t"

fun port_out_of_range :: "port \<Rightarrow> bool" where
  "port_out_of_range (PortNumber n) = (65535 < n)"
| "port_out_of_range (PortText t) = (t \<noteq> [] \<and> list_all is_digit t \<and> 65535 < decimal t)"

definition app_listen :: "port \<Rightarrow> listen_result \<Rightarrow> listen_result" where
  "app_listen p answer = (if port_out_of_range p then Throws else answer)"

text \<open>The script itself, top to bottom; an exception thrown by \<^verbatim>\<open>app.listen\<close> ends it.\<close>

definition app_js :: "string option \<Rightarrow> listen_result \<Rightarrow> event list" where
  "app_js env_port answer =
     [DotenvConfig] @ until_await connectToDatabase @
     (let port = port_or_default env_port in
      [ExpressCreated, ViewEngineSet, UrlencodedUsed, StaticUsed, RoutesUsed] @
      (case app_listen port answer of
         Listens \<Rightarrow> [ListenStarted port]
       | Throws \<Rightarrow> [UncaughtException, Exit 1]
       | FailsLater \<Rightarrow> []))"

text \<open>What \<^verbatim>\<open>app.listen\<close> left for the event loop: its callback, or the \<^verbatim>\<open>error\<close> event.\<close>

definition after_listen :: "string option \<Rightarrow> listen_result \<Rightarrow> event list" where
  "after_listen env_port answer =
     (let port = port_or_default env_port in
      case app_listen port answer of
        Listens \<Rightarrow> [LogListening port]
      | Throws \<Rightarrow> []
      | FailsLater \<Rightarrow> [UncaughtException, Exit 1])"

text \<open>The end of the process: nothing pending runs after an exit.\<close>

fun until_exit :: "event list \<Rightarrow> event list" where
  "until_exit [] = []"
| "until_exit (Exit c # evs) = [Exit c]"
| "until_exit (ev # evs) = ev # until_exit evs"

text \<open>
  A whole start-up, given whether the connection attempt succeeds and what the environment
  answers to the listener: the script, then what \<^verbatim>\<open>app.listen\<close> left pending, then the
  settling of the connection attempt and the rest of \<^verbatim>\<open>connectToDatabase\<close>, as far as the
  process lives.
\<close>

definition startup :: "bool \<Rightarrow> string option \<Rightarrow> listen_result \<Rightarrow> event list" where
  "startup connected env_port answer =
     until_exit
       (app_js env_port answer @ after_listen env_port answer @
        [ConnectSettled connected] @ resumed connectToDatabase connected)"

text \<open>The exit code of a run, \<open>None\<close> while the process keeps running.\<close>

fun exit_code :: "event list \<Rightarrow> nat option" where
  "exit_code [] = None"
| "exit_code (Exit c # evs) = Some c"
| "exit_code (ev # evs) = exit_code evs"

text \<open>\<open>before a b tr\<close>: \<open>b\<close> happens in \<open>tr\<close>, and \<open>a\<close> happens ahead of its first occurrence.\<close>

definition before :: "event \<Rightarrow> event \<Rightarrow> event list \<Rightarrow> bool" where
  "before a b tr = (b \<in> set tr \<and> a \<in> set (takeWhile (\<lambda>ev. ev \<noteq> b) tr))"

text \<open>No listener is started until a connection attempt has settled.\<close>

fun listens_after_connect :: "event list \<Rightarrow> bool" where
  "listens_after_connect [] = True"
| "listens_after_connect (ConnectSettled connected # evs) = True"
| "listens_after_connect (ListenStarted p # evs) = False"
| "listens_after_connect (ev # evs) = listens_after_connect evs"

section \<open>What the handlers compute\<close>

lemma getItems_reply:
  "reply (getItems e req s) =
     (if reachable e then Inr (Rendered ''index'' s) else Inr (Sent 500 ''Error fetching items''))"
  by (simp add: getItems_def try_catch_def Item_find_def res_render_def res_status_send_def)

lemma getItems_store: "store_after (getItems e req s) = s"
  by (simp add: getItems_def try_catch_def split: sum.splits)

lemma getItems_calls: "calls (getItems e req s) = [Find]"
  by (simp add: getItems_def try_catch_def split: sum.splits)

lemma body_name_simps [simp]:
  "body_name \<lparr>req_body = Some name, params_id = t\<rparr> = name"
  "body_name \<lparr>req_body = None, params_id = t\<rparr> = Undefined"
  by (simp_all add: body_name_def)

lemma addItem_no_body:
  "req_body req = None \<Longrightarrow>
   addItem e req s =
     \<lparr>reply = Inr (Sent 500 ''Error saving item''), store_after = s, calls = []\<rparr>"
  by (simp add: addItem_def try_catch_def res_status_send_def)

lemma addItem_no_name:
  "req_body req = Some name \<Longrightarrow> falsy name \<Longrightarrow>
   addItem e req s = \<lparr>reply = Inr (Redirected 302 ''/''), store_after = s, calls = []\<rparr>"
  by (simp add: addItem_def try_catch_def res_redirect_def)

lemma addItem_falsy:
  "falsy (body_name req) \<Longrightarrow>
   store_after (addItem e req s) = s \<and> calls (addItem e req s) = []"
  by (cases "req_body req") (simp_all add: body_name_def addItem_no_body addItem_no_name)

lemma addItem_saved:
  "\<not> falsy (body_name req) \<Longrightarrow> Item_save e (new_Item e (body_name req)) s = Inr s' \<Longrightarrow>
   addItem e req s =
     \<lparr>reply = Inr (Redirected 302 ''/''), store_after = s', calls = [Save (body_name req)]\<rparr>"
  by (cases "req_body req")
    (simp_all add: body_name_def addItem_def try_catch_def res_redirect_def)

lemma addItem_failed:
  "\<not> falsy (body_name req) \<Longrightarrow> Item_save e (new_Item e (body_name req)) s = Inl err \<Longrightarrow>
   addItem e req s =
     \<lparr>reply = Inr (Sent 500 ''Error saving item''), store_after = s,
      calls = [Save (body_name req)]\<rparr>"
  by (cases "req_body req")
    (simp_all add: body_name_def addItem_def try_catch_def res_status_send_def)

lemma Item_save_Inr:
  "Item_save e d s = Inr s' \<Longrightarrow>
   s' = s @ [d] \<and> nonempty_string (item_name d) \<and> reachable e \<and>
   item_id d \<notin> set (map item_id s)"
  by (simp add: Item_save_def split: if_splits)

lemma deleteItem_done:
  "Item_findByIdAndDelete e (params_id req) s = Inr (found, s') \<Longrightarrow>
   deleteItem e req s =
     \<lparr>reply = Inr (Redirected 302 ''/''), store_after = s',
      calls = [FindByIdAndDelete (params_id req)]\<rparr>"
  by (simp add: deleteItem_def try_catch_def res_redirect_def)

lemma deleteItem_failed:
  "Item_findByIdAndDelete e (params_id req) s = Inl err \<Longrightarrow>
   deleteItem e req s =
     \<lparr>reply = Inr (Sent 500 ''Error deleting item''), store_after = s,
      calls = [FindByIdAndDelete (params_id req)]\<rparr>"
  by (simp add: deleteItem_def try_catch_def res_status_send_def)

lemma deleteItem_store:
  "store_after (deleteItem e req s) =
     (case castObjectId (params_id req) of
        None \<Rightarrow> s
      | Some oid \<Rightarrow> if reachable e then delete_first oid s else s)"
  by (simp add: deleteItem_def try_catch_def Item_findByIdAndDelete_def Let_def
      split: option.splits)

lemma deleteItem_reply:
  "reply (deleteItem e req s) =
     (if castObjectId (params_id req) \<noteq> None \<and> reachable e then Inr (Redirected 302 ''/'')
      else Inr (Sent 500 ''Error deleting item''))"
  by (auto simp add: deleteItem_def try_catch_def Item_findByIdAndDelete_def res_redirect_def
      res_status_send_def Let_def split: option.splits)

lemma delete_first_absent: "oid \<notin> set (map item_id s) \<Longrightarrow> delete_first oid s = s"
  by (induction s) auto

lemma delete_first_filter:
  "distinct (map item_id s) \<Longrightarrow> delete_first oid s = filter (\<lambda>d. item_id d \<noteq> oid) s"
proof (induction s)
  case Nil
  then show ?case by simp
next
  case (Cons d ds)
  show ?case
  proof (cases "item_id d = oid")
    case True
    with Cons.prems have "oid \<notin> set (map item_id ds)" by auto
    then have "filter (\<lambda>x. item_id x \<noteq> oid) ds = ds"
      by (induction ds) auto
    with True show ?thesis by simp
  next
    case False
    with Cons show ?thesis by simp
  qed
qed

lemma delete_first_subset: "set (map item_id (delete_first oid s)) \<subseteq> set (map item_id s)"
  by (induction s) auto

lemma delete_first_distinct:
  "distinct (map item_id s) \<Longrightarrow> distinct (map item_id (delete_first oid s))"
proof (induction s)
  case Nil
  then show ?case by simp
next
  case (Cons d ds)
  then show ?case using delete_first_subset [of oid ds] by auto
qed

lemma delete_first_names:
  "names_nonempty s \<Longrightarrow> names_nonempty (delete_first oid s)"
  by (induction s) (auto simp: names_nonempty_def)

lemma delete_first_present:
  "d \<in> set s \<Longrightarrow> distinct (map item_id s) \<Longrightarrow>
   mset (delete_first (item_id d) s) + {#d#} = mset s"
proof (induction s)
  case Nil
  then show ?case by simp
next
  case (Cons x xs)
  show ?case
  proof (cases "item_id x = item_id d")
    case True
    with Cons.prems have "x = d" by (auto simp: image_iff)
    with True show ?thesis by simp
  next
    case False
    with Cons show ?thesis by auto
  qed
qed

lemma run_adds_Nil: "run_adds [] s = ([], s)"
  by (simp add: run_adds_def)

lemma run_adds_Cons:
  "run_adds ((e, req) # rest) s =
     (reply (addItem e req s) # fst (run_adds rest (store_after (addItem e req s))),
      snd (run_adds rest (store_after (addItem e req s))))"
  by (simp add: run_adds_def Let_def case_prod_unfold)

lemma addItem_redirected:
  assumes "\<not> falsy (body_name req)"
      and "reply (addItem e req s) = Inr (Redirected 302 ''/'')"
  shows "store_after (addItem e req s) = s @ [new_Item e (body_name req)]"
proof (cases "Item_save e (new_Item e (body_name req)) s")
  case (Inl err)
  with assms show ?thesis by (simp add: addItem_failed)
next
  case (Inr s')
  from Item_save_Inr [OF Inr] have "s' = s @ [new_Item e (body_name req)]" by simp
  with assms(1) Inr show ?thesis by (simp add: addItem_saved)
qed

lemma addItem_not_redirected:
  assumes "reply (addItem e req s) \<noteq> Inr (Redirected 302 ''/'')"
  shows "store_after (addItem e req s) = s"
proof (cases "falsy (body_name req)")
  case True
  then show ?thesis by (simp add: addItem_falsy)
next
  case False
  show ?thesis
  proof (cases "Item_save e (new_Item e (body_name req)) s")
    case (Inl err)
    with False show ?thesis by (simp add: addItem_failed)
  next
    case (Inr s')
    with False assms show ?thesis by (simp add: addItem_saved)
  qed
qed

lemma run_adds_all_saved:
  "list_all (\<lambda>(e, req). \<not> falsy (body_name req)) adds \<Longrightarrow>
   list_all (\<lambda>r. r = Inr (Redirected 302 ''/'')) (fst (run_adds adds s)) \<Longrightarrow>
   snd (run_adds adds s) = s @ map (\<lambda>(e, req). new_Item e (body_name req)) adds"
proof (induction adds arbitrary: s)
  case Nil
  then show ?case by (simp add: run_adds_Nil)
next
  case (Cons x adds)
  obtain e req where x: "x = (e, req)" by (cases x)
  from Cons.prems x have name: "\<not> falsy (body_name req)"
    and names: "list_all (\<lambda>(e, req). \<not> falsy (body_name req)) adds"
    by simp_all
  from Cons.prems(2) x have r: "reply (addItem e req s) = Inr (Redirected 302 ''/'')"
    and rs: "list_all (\<lambda>r. r = Inr (Redirected 302 ''/''))
               (fst (run_adds adds (store_after (addItem e req s))))"
    by (simp_all add: run_adds_Cons)
  from name r have st: "store_after (addItem e req s) = s @ [new_Item e (body_name req)]"
    by (rule addItem_redirected)
  from Cons.IH [OF names rs] st x show ?case
    by (simp add: run_adds_Cons)
qed

lemma names_of_new_items:
  "map item_name (map (\<lambda>(e, req). new_Item e (body_name req)) adds) =
   map (\<lambda>(e, req). body_name req) adds"
  by (induction adds) (auto simp: new_Item_def)

section \<open>Adding, then listing\<close>

text \<open>
  Claim C1, as the code has it. Take any store and any finite sequence of Add requests,
  each with a non-empty name, each of which succeeded (was answered with the redirect to
  \<^verbatim>\<open>/\<close>, so its save was not refused). Then the store is the prior contents followed by
  one new item per request, in order, a List that reaches the store renders exactly these
  items, and the names listed are the prior names plus the multiset of submitted names. One
  Add with a non-empty name that succeeds appends exactly one record; an Add that is not
  answered with the redirect appends none.
\<close>

theorem adds_then_list:
  assumes "list_all (\<lambda>(e, req). \<not> falsy (body_name req)) adds"
      and "list_all (\<lambda>r. r = Inr (Redirected 302 ''/'')) (fst (run_adds adds s))"
      and "reachable e'"
  shows "reply (getItems e' req' (snd (run_adds adds s))) =
           Inr (Rendered ''index'' (s @ map (\<lambda>(e, req). new_Item e (body_name req)) adds)) \<and>
         mset (map item_name (snd (run_adds adds s))) =
           mset (map item_name s) + mset (map (\<lambda>(e, req). body_name req) adds) \<and>
         length (snd (run_adds adds s)) = length s + length adds \<and>
         (\<forall>e req s0. \<not> falsy (body_name req) \<and>
              reply (addItem e req s0) = Inr (Redirected 302 ''/'') \<longrightarrow>
              store_after (addItem e req s0) = s0 @ [new_Item e (body_name req)]) \<and>
         (\<forall>e req s0. reply (addItem e req s0) \<noteq> Inr (Redirected 302 ''/'') \<longrightarrow>
              store_after (addItem e req s0) = s0)"
proof -
  have st: "snd (run_adds adds s) = s @ map (\<lambda>(e, req). new_Item e (body_name req)) adds"
    using assms(1,2) by (rule run_adds_all_saved)
  have a: "reply (getItems e' req' (snd (run_adds adds s))) =
           Inr (Rendered ''index'' (s @ map (\<lambda>(e, req). new_Item e (body_name req)) adds))"
    using assms(3) by (simp add: getItems_reply st)
  have b: "mset (map item_name (snd (run_adds adds s))) =
           mset (map item_name s) + mset (map (\<lambda>(e, req). body_name req) adds)"
    by (simp only: st map_append mset_append names_of_new_items)
  have c: "length (snd (run_adds adds s)) = length s + length adds"
    by (simp add: st)
  have d: "\<forall>e req s0. \<not> falsy (body_name req) \<and>
              reply (addItem e req s0) = Inr (Redirected 302 ''/'') \<longrightarrow>
              store_after (addItem e req s0) = s0 @ [new_Item e (body_name req)]"
    using addItem_redirected by blast
  have f: "\<forall>e req s0. reply (addItem e req s0) \<noteq> Inr (Redirected 302 ''/'') \<longrightarrow>
              store_after (addItem e req s0) = s0"
    using addItem_not_redirected by blast
  from a b c d f show ?thesis by blast
qed

text \<open>
  Without the condition on success the statement of C1 fails: an Add of \<^verbatim>\<open>Milk\<close> while the
  store is unreachable is answered with status 500, and the List that follows shows no item.
\<close>

theorem adds_then_list_counterexample:
  "\<not> falsy (Str ''Milk'') \<and>
   reply (getItems \<lparr>reachable = True, generated_id = 2\<rparr> \<lparr>req_body = Some (Undefined), params_id = []\<rparr>
      (snd (run_adds
         [(\<lparr>reachable = False, generated_id = 1\<rparr>, \<lparr>req_body = Some (Str ''Milk''), params_id = []\<rparr>)]
         []))) = Inr (Rendered ''index'' []) \<and>
   fst (run_adds
         [(\<lparr>reachable = False, generated_id = 1\<rparr>, \<lparr>req_body = Some (Str ''Milk''), params_id = []\<rparr>)]
         []) = [Inr (Sent 500 ''Error saving item'')]"
  by code_simp

theorem adds_then_list_witness:
  "list_all (\<lambda>(e, req). \<not> falsy (body_name req))
     [(\<lparr>reachable = True, generated_id = 1\<rparr>, \<lparr>req_body = Some (Str ''Milk''), params_id = []\<rparr>),
      (\<lparr>reachable = True, generated_id = 2\<rparr>, \<lparr>req_body = Some (Str ''Milk''), params_id = []\<rparr>)] \<and>
   fst (run_adds
     [(\<lparr>reachable = True, generated_id = 1\<rparr>, \<lparr>req_body = Some (Str ''Milk''), params_id = []\<rparr>),
      (\<lparr>reachable = True, generated_id = 2\<rparr>, \<lparr>req_body = Some (Str ''Milk''), params_id = []\<rparr>)]
     [\<lparr>item_id = 9, item_name = Str ''Eggs''\<rparr>])
     = [Inr (Redirected 302 ''/''), Inr (Redirected 302 ''/'')] \<and>
   reply (getItems \<lparr>reachable = True, generated_id = 3\<rparr> \<lparr>req_body = Some (Undefined), params_id = []\<rparr>
      (snd (run_adds
        [(\<lparr>reachable = True, generated_id = 1\<rparr>, \<lparr>req_body = Some (Str ''Milk''), params_id = []\<rparr>),
         (\<lparr>reachable = True, generated_id = 2\<rparr>, \<lparr>req_body = Some (Str ''Milk''), params_id = []\<rparr>)]
        [\<lparr>item_id = 9, item_name = Str ''Eggs''\<rparr>])))
     = Inr (Rendered ''index''
         [\<lparr>item_id = 9, item_name = Str ''Eggs''\<rparr>, \<lparr>item_id = 1, item_name = Str ''Milk''\<rparr>,
          \<lparr>item_id = 2, item_name = Str ''Milk''\<rparr>]) \<and>
   mset (map item_name (snd (run_adds
        [(\<lparr>reachable = True, generated_id = 1\<rparr>, \<lparr>req_body = Some (Str ''Milk''), params_id = []\<rparr>),
         (\<lparr>reachable = True, generated_id = 2\<rparr>, \<lparr>req_body = Some (Str ''Milk''), params_id = []\<rparr>)]
        [\<lparr>item_id = 9, item_name = Str ''Eggs''\<rparr>])))
     = {#Str ''Eggs'', Str ''Milk'', Str ''Milk''#}"
proof -
  have n: "list_all (\<lambda>(e, req). \<not> falsy (body_name req))
     [(\<lparr>reachable = True, generated_id = 1\<rparr>, \<lparr>req_body = Some (Str ''Milk''), params_id = []\<rparr>),
      (\<lparr>reachable = True, generated_id = 2\<rparr>, \<lparr>req_body = Some (Str ''Milk''), params_id = []\<rparr>)]"
    by simp
  have f: "fst (run_adds
     [(\<lparr>reachable = True, generated_id = 1\<rparr>, \<lparr>req_body = Some (Str ''Milk''), params_id = []\<rparr>),
      (\<lparr>reachable = True, generated_id = 2\<rparr>, \<lparr>req_body = Some (Str ''Milk''), params_id = []\<rparr>)]
     [\<lparr>item_id = 9, item_name = Str ''Eggs''\<rparr>])
     = [Inr (Redirected 302 ''/''), Inr (Redirected 302 ''/'')]"
    by code_simp
  then have r: "list_all (\<lambda>r. r = Inr (Redirected 302 ''/'')) (fst (run_adds
     [(\<lparr>reachable = True, generated_id = 1\<rparr>, \<lparr>req_body = Some (Str ''Milk''), params_id = []\<rparr>),
      (\<lparr>reachable = True, generated_id = 2\<rparr>, \<lparr>req_body = Some (Str ''Milk''), params_id = []\<rparr>)]
     [\<lparr>item_id = 9, item_name = Str ''Eggs''\<rparr>]))"
    by simp
  have u: "reachable \<lparr>reachable = True, generated_id = 3\<rparr>" by simp
  from adds_then_list [OF n r u, of "\<lparr>req_body = Some (Undefined), params_id = []\<rparr>"] n f
  show ?thesis by (simp add: new_Item_def)
qed

section \<open>The order of start-up\<close>

lemma startup_listens:
  assumes "app_listen (port_or_default env_port) answer = Listens"
  shows "startup connected env_port answer =
     [DotenvConfig, ConnectStarted, ExpressCreated, ViewEngineSet, UrlencodedUsed, StaticUsed,
      RoutesUsed, ListenStarted (port_or_default env_port),
      LogListening (port_or_default env_port), ConnectSettled connected] @
     (if connected then [LogConnected] else [LogConnectionFailed, Exit 1])"
  using assms
  by (simp add: startup_def app_js_def after_listen_def connectToDatabase_def)

lemma startup_throws:
  assumes "app_listen (port_or_default env_port) answer = Throws"
  shows "startup connected env_port answer =
     [DotenvConfig, ConnectStarted, ExpressCreated, ViewEngineSet, UrlencodedUsed, StaticUsed,
      RoutesUsed, UncaughtException, Exit 1]"
  using assms
  by (simp add: startup_def app_js_def after_listen_def connectToDatabase_def)

lemma startup_fails_later:
  assumes "app_listen (port_or_default env_port) answer = FailsLater"
  shows "startup connected env_port answer =
     [DotenvConfig, ConnectStarted, ExpressCreated, ViewEngineSet, UrlencodedUsed, StaticUsed,
      RoutesUsed, UncaughtException, Exit 1]"
  using assms
  by (simp add: startup_def app_js_def after_listen_def connectToDatabase_def)

lemma app_listen_default: "app_listen (port_or_default None) Listens = Listens"
  by (simp add: app_listen_def port_or_default_def)

lemma app_listen_99999: "app_listen (port_or_default (Some ''99999'')) answer = Throws"
  by (simp add: app_listen_def port_or_default_def is_digit_def decimal_def)

text \<open>
  Claim C7, as the code has it. In every start-up the connection attempt is started before
  \<^verbatim>\<open>app.listen\<close> is reached, and it is not awaited: whenever the listener begins listening, it
  does so after the connection attempt was started and before that attempt settles, whether
  it then succeeds or fails. When \<^verbatim>\<open>app.listen\<close> fails, no listener is started at all.
\<close>

theorem listening_precedes_connection_settling:
  "(app_listen (port_or_default env_port) answer = Listens \<longrightarrow>
      before ConnectStarted (ListenStarted (port_or_default env_port))
        (startup connected env_port answer) \<and>
      before (ListenStarted (port_or_default env_port)) (ConnectSettled connected)
        (startup connected env_port answer)) \<and>
   (app_listen (port_or_default env_port) answer \<noteq> Listens \<longrightarrow>
      ListenStarted (port_or_default env_port) \<notin> set (startup connected env_port answer))"
proof (cases "app_listen (port_or_default env_port) answer")
  case Listens
  then show ?thesis
    by (cases connected) (simp_all add: startup_listens before_def)
next
  case Throws
  then show ?thesis by (simp add: startup_throws)
next
  case FailsLater
  then show ?thesis by (simp add: startup_fails_later)
qed

text \<open>
  C7 as stated, that no listener is started until the connection attempt has settled, fails
  in the start-up with the default port whose listener starts, both when the connection
  succeeds and when it fails.
\<close>

theorem listening_precedes_connection_settling_counterexample:
  "\<not> listens_after_connect (startup True None Listens) \<and>
   \<not> listens_after_connect (startup False None Listens)"
  using startup_listens [OF app_listen_default, of True]
    startup_listens [OF app_listen_default, of False]
  by (simp add: port_or_default_def)

theorem listening_precedes_connection_settling_witness:
  "app_listen (port_or_default None) Listens = Listens \<and>
   before ConnectStarted (ListenStarted (PortNumber 3000)) (startup False None Listens) \<and>
   before (ListenStarted (PortNumber 3000)) (ConnectSettled False) (startup False None Listens) \<and>
   app_listen (port_or_default (Some ''99999'')) Listens \<noteq> Listens \<and>
   ListenStarted (PortText ''99999'') \<notin> set (startup True (Some ''99999'') Listens)"
  using listening_precedes_connection_settling [of None Listens False]
    listening_precedes_connection_settling [of "Some ''99999''" Listens True]
    app_listen_default app_listen_99999 [of Listens]
  by (simp add: port_or_default_def)

text \<open>
  Claim C8, as the code has it. In a start-up whose listener started: when the connection
  attempt fails, the process exits with code 1; the connection was attempted once; from
  the failure on, nothing runs but the logging of the error and the exit, so no listener is
  started from there; but the listener had been started before the attempt settled, so
  until then the process listens without a connection to the store. When the connection
  attempt succeeds, the start-up contains no exit: the process keeps running.
\<close>

theorem failed_connection_exits:
  assumes "app_listen (port_or_default env_port) answer = Listens"
  shows "exit_code (startup False env_port answer) = Some 1 \<and>
         count_list (startup False env_port answer) ConnectStarted = 1 \<and>
         dropWhile (\<lambda>ev. ev \<noteq> ConnectSettled False) (startup False env_port answer) =
           [ConnectSettled False, LogConnectionFailed, Exit 1] \<and>
         before (ListenStarted (port_or_default env_port)) (ConnectSettled False)
           (startup False env_port answer) \<and>
         exit_code (startup True env_port answer) = None"
  using assms by (simp add: startup_listens before_def)

text \<open>
  C8 as stated fails twice. In the start-up with the default port whose connection attempt
  fails, the listener is started, and its callback run, ahead of the failure. And with
  \<^verbatim>\<open>PORT=99999\<close> the process exits with code 1 although the connection attempt would succeed:
  \<^verbatim>\<open>app.listen\<close> throws, and the run ends before the attempt settles.
\<close>

theorem failed_connection_exits_counterexample:
  "before (ListenStarted (PortNumber 3000)) (ConnectSettled False) (startup False None Listens) \<and>
   before (LogListening (PortNumber 3000)) (ConnectSettled False) (startup False None Listens) \<and>
   exit_code (startup True (Some ''99999'') Listens) = Some 1 \<and>
   ConnectSettled True \<notin> set (startup True (Some ''99999'') Listens)"
  using startup_listens [OF app_listen_default, of False]
    startup_throws [OF app_listen_99999 [of Listens], of True]
  by (simp add: before_def port_or_default_def)

theorem failed_connection_exits_witness:
  "app_listen (port_or_default None) Listens = Listens \<and>
   exit_code (startup False None Listens) = Some 1 \<and>
   count_list (startup False None Listens) ConnectStarted = 1 \<and>
   dropWhile (\<lambda>ev. ev \<noteq> ConnectSettled False) (startup False None Listens) =
     [ConnectSettled False, LogConnectionFailed, Exit 1] \<and>
   exit_code (startup True None Listens) = None"
  using failed_connection_exits [OF app_listen_default] app_listen_default
  by simp

section \<open>Adding without a name\<close>

text \<open>
  An Add whose body was parsed and whose name is absent or the empty string is answered with
  the 302 redirect to \<^verbatim>\<open>/\<close>, and an Add that submits no name, with or without a body, makes
  no call to the store and leaves it as it was.
\<close>

lemma add_without_name_with_body:
  assumes "req_body req = Some Undefined \<or> req_body req = Some (Str [])"
  shows "reply (addItem e req s) = Inr (Redirected 302 ''/'') \<and>
         store_after (addItem e req s) = s \<and> calls (addItem e req s) = []"
  using assms by (auto simp add: addItem_no_name)

text \<open>
  Claim C3 does not hold of the code at a request without a body. The submitted name is
  then absent, and the claim asks for the redirect and for no error response; the handler
  answers with status 500 and \<^verbatim>\<open>Error saving item\<close>, the store being reachable and left as
  it was.
\<close>

theorem add_without_body_answers_500:
  "body_name \<lparr>req_body = None, params_id = []\<rparr> = Undefined \<and>
   reply (addItem \<lparr>reachable = True, generated_id = 7\<rparr> \<lparr>req_body = None, params_id = []\<rparr>
      [\<lparr>item_id = 1, item_name = Str ''Milk''\<rparr>]) = Inr (Sent 500 ''Error saving item'') \<and>
   store_after (addItem \<lparr>reachable = True, generated_id = 7\<rparr> \<lparr>req_body = None, params_id = []\<rparr>
      [\<lparr>item_id = 1, item_name = Str ''Milk''\<rparr>]) = [\<lparr>item_id = 1, item_name = Str ''Milk''\<rparr>]"
  by (simp add: body_name_def addItem_no_body)

section \<open>Listing\<close>

text \<open>
  Claim C9. List leaves the store exactly as it was, both when it renders the view
  (the store answered) and when it answers with status 500 (the store did not).
\<close>

theorem list_is_read_only:
  "store_after (getItems e req s) = s \<and>
   (reachable e \<longrightarrow> reply (getItems e req s) = Inr (Rendered ''index'' s)) \<and>
   (\<not> reachable e \<longrightarrow> reply (getItems e req s) = Inr (Sent 500 ''Error fetching items''))"
  by (simp add: getItems_store getItems_reply)

theorem list_is_read_only_witness:
  "store_after (getItems \<lparr>reachable = True, generated_id = 7\<rparr> \<lparr>req_body = Some (Undefined), params_id = []\<rparr>
      [\<lparr>item_id = 1, item_name = Str ''Milk''\<rparr>]) = [\<lparr>item_id = 1, item_name = Str ''Milk''\<rparr>] \<and>
   reply (getItems \<lparr>reachable = True, generated_id = 7\<rparr> \<lparr>req_body = Some (Undefined), params_id = []\<rparr>
      [\<lparr>item_id = 1, item_name = Str ''Milk''\<rparr>])
     = Inr (Rendered ''index'' [\<lparr>item_id = 1, item_name = Str ''Milk''\<rparr>]) \<and>
   store_after (getItems \<lparr>reachable = False, generated_id = 7\<rparr> \<lparr>req_body = Some (Undefined), params_id = []\<rparr>
      [\<lparr>item_id = 1, item_name = Str ''Milk''\<rparr>]) = [\<lparr>item_id = 1, item_name = Str ''Milk''\<rparr>] \<and>
   reply (getItems \<lparr>reachable = False, generated_id = 7\<rparr> \<lparr>req_body = Some (Undefined), params_id = []\<rparr>
      [\<lparr>item_id = 1, item_name = Str ''Milk''\<rparr>]) = Inr (Sent 500 ''Error fetching items'')"
  using list_is_read_only
          [of "\<lparr>reachable = True, generated_id = 7\<rparr>" "\<lparr>req_body = Some (Undefined), params_id = []\<rparr>"
              "[\<lparr>item_id = 1, item_name = Str ''Milk''\<rparr>]"]
        list_is_read_only
          [of "\<lparr>reachable = False, generated_id = 7\<rparr>" "\<lparr>req_body = Some (Undefined), params_id = []\<rparr>"
              "[\<lparr>item_id = 1, item_name = Str ''Milk''\<rparr>]"]
  by simp

section \<open>The invariant on names\<close>

lemma handle_names_nonempty:
  "names_nonempty s \<Longrightarrow> names_nonempty (store_after (handle op e req s))"
proof (cases op)
  case ListOp
  assume "names_nonempty s"
  with ListOp show ?thesis by (simp add: getItems_store)
next
  case AddOp
  assume inv: "names_nonempty s"
  show ?thesis
  proof (cases "falsy (body_name req)")
    case True
    with inv AddOp show ?thesis by (simp add: addItem_falsy)
  next
    case False
    show ?thesis
    proof (cases "Item_save e (new_Item e (body_name req)) s")
      case (Inl err)
      with False inv AddOp show ?thesis by (simp add: addItem_failed)
    next
      case (Inr s')
      from Item_save_Inr [OF Inr] inv have "names_nonempty s'"
        by (simp add: names_nonempty_def)
      with False Inr AddOp show ?thesis by (simp add: addItem_saved)
    qed
  qed
next
  case DeleteOp
  assume "names_nonempty s"
  with DeleteOp show ?thesis
    by (simp add: deleteItem_store delete_first_names split: option.splits)
qed

lemma run_ops_names_nonempty:
  "names_nonempty s \<Longrightarrow> names_nonempty (snd (run_ops ops s))"
proof (induction ops arbitrary: s)
  case Nil
  then show ?case by simp
next
  case (Cons x ops)
  obtain op e req where x: "x = (op, e, req)" by (cases x) auto
  from Cons.prems have "names_nonempty (store_after (handle op e req s))"
    by (rule handle_names_nonempty)
  then have "names_nonempty (snd (run_ops ops (store_after (handle op e req s))))"
    by (rule Cons.IH)
  with x show ?case by (simp add: Let_def case_prod_unfold)
qed

text \<open>
  Claim C2. Every persisted item has a non-empty name: this holds of the empty store, each
  of List, Add (with any name, also an absent or empty one) and Delete (with any id)
  preserves it, an Add with an absent or empty name creates nothing, and so it holds after
  any sequence of requests served from the empty store.
\<close>

theorem names_nonempty_invariant:
  "names_nonempty [] \<and>
   (names_nonempty s \<longrightarrow>
      names_nonempty (store_after (getItems e req s)) \<and>
      names_nonempty (store_after (addItem e req s)) \<and>
      names_nonempty (store_after (deleteItem e req s))) \<and>
   (falsy (body_name req) \<longrightarrow> store_after (addItem e req s) = s) \<and>
   names_nonempty (snd (run_ops ops []))"
proof -
  have init: "names_nonempty []" by (simp add: names_nonempty_def)
  have step: "names_nonempty s \<longrightarrow>
      names_nonempty (store_after (getItems e req s)) \<and>
      names_nonempty (store_after (addItem e req s)) \<and>
      names_nonempty (store_after (deleteItem e req s))"
    using handle_names_nonempty [of s ListOp e req] handle_names_nonempty [of s AddOp e req]
      handle_names_nonempty [of s DeleteOp e req]
    by simp
  have rej: "falsy (body_name req) \<longrightarrow> store_after (addItem e req s) = s"
    by (simp add: addItem_falsy)
  have all: "names_nonempty (snd (run_ops ops []))"
    using init by (rule run_ops_names_nonempty)
  from init step rej all show ?thesis by blast
qed

theorem names_nonempty_invariant_witness:
  "names_nonempty [\<lparr>item_id = 1, item_name = Str ''Milk''\<rparr>] \<and>
   names_nonempty (store_after (addItem \<lparr>reachable = True, generated_id = 2\<rparr>
      \<lparr>req_body = Some (Str []), params_id = []\<rparr> [\<lparr>item_id = 1, item_name = Str ''Milk''\<rparr>])) \<and>
   names_nonempty (store_after (addItem \<lparr>reachable = True, generated_id = 2\<rparr>
      \<lparr>req_body = Some (Undefined), params_id = []\<rparr> [\<lparr>item_id = 1, item_name = Str ''Milk''\<rparr>])) \<and>
   names_nonempty (store_after (addItem \<lparr>reachable = True, generated_id = 2\<rparr>
      \<lparr>req_body = Some (Str ''Eggs''), params_id = []\<rparr> [\<lparr>item_id = 1, item_name = Str ''Milk''\<rparr>])) \<and>
   names_nonempty (store_after (deleteItem \<lparr>reachable = True, generated_id = 2\<rparr>
      \<lparr>req_body = Some (Undefined), params_id = ''000000000000000000000001''\<rparr>
      [\<lparr>item_id = 1, item_name = Str ''Milk''\<rparr>]))"
proof -
  have h: "names_nonempty [\<lparr>item_id = 1, item_name = Str ''Milk''\<rparr>]"
    by (simp add: names_nonempty_def)
  show ?thesis
    using h
      names_nonempty_invariant [of "[\<lparr>item_id = 1, item_name = Str ''Milk''\<rparr>]"
        "\<lparr>reachable = True, generated_id = 2\<rparr>" "\<lparr>req_body = Some (Str []), params_id = []\<rparr>" "[]"]
      names_nonempty_invariant [of "[\<lparr>item_id = 1, item_name = Str ''Milk''\<rparr>]"
        "\<lparr>reachable = True, generated_id = 2\<rparr>" "\<lparr>req_body = Some (Undefined), params_id = []\<rparr>" "[]"]
      names_nonempty_invariant [of "[\<lparr>item_id = 1, item_name = Str ''Milk''\<rparr>]"
        "\<lparr>reachable = True, generated_id = 2\<rparr>" "\<lparr>req_body = Some (Str ''Eggs''), params_id = []\<rparr>" "[]"]
      names_nonempty_invariant [of "[\<lparr>item_id = 1, item_name = Str ''Milk''\<rparr>]"
        "\<lparr>reachable = True, generated_id = 2\<rparr>"
        "\<lparr>req_body = Some (Undefined), params_id = ''000000000000000000000001''\<rparr>" "[]"]
    by simp
qed

section \<open>Failures of the store\<close>

text \<open>
  Claim C6. Whenever the call a handler makes to the store fails, the handler answers with
  status 500 and a fixed body: List with \<^verbatim>\<open>Error fetching items\<close>, Add with
  \<^verbatim>\<open>Error saving item\<close>, Delete with \<^verbatim>\<open>Error deleting item\<close>. The reply is a response
  (\<open>Inr\<close>), so no exception leaves the handler; the store was called exactly once, so the
  call was not retried; and the store is as it was. Add calls the store only for a
  submitted name that is neither absent nor empty.
\<close>

theorem store_failure_is_500:
  "(Item_find e s = Inl err \<longrightarrow>
      reply (getItems e req s) = Inr (Sent 500 ''Error fetching items'') \<and>
      calls (getItems e req s) = [Find] \<and> store_after (getItems e req s) = s) \<and>
   (\<not> falsy (body_name req) \<and> Item_save e (new_Item e (body_name req)) s = Inl err \<longrightarrow>
      reply (addItem e req s) = Inr (Sent 500 ''Error saving item'') \<and>
      calls (addItem e req s) = [Save (body_name req)] \<and> store_after (addItem e req s) = s) \<and>
   (Item_findByIdAndDelete e (params_id req) s = Inl err \<longrightarrow>
      reply (deleteItem e req s) = Inr (Sent 500 ''Error deleting item'') \<and>
      calls (deleteItem e req s) = [FindByIdAndDelete (params_id req)] \<and>
      store_after (deleteItem e req s) = s)"
proof -
  have l: "Item_find e s = Inl err \<longrightarrow>
      reply (getItems e req s) = Inr (Sent 500 ''Error fetching items'') \<and>
      calls (getItems e req s) = [Find] \<and> store_after (getItems e req s) = s"
    by (simp add: getItems_reply getItems_calls getItems_store Item_find_def split: if_splits)
  have a: "\<not> falsy (body_name req) \<and> Item_save e (new_Item e (body_name req)) s = Inl err \<longrightarrow>
      reply (addItem e req s) = Inr (Sent 500 ''Error saving item'') \<and>
      calls (addItem e req s) = [Save (body_name req)] \<and> store_after (addItem e req s) = s"
    by (simp add: addItem_failed)
  have d: "Item_findByIdAndDelete e (params_id req) s = Inl err \<longrightarrow>
      reply (deleteItem e req s) = Inr (Sent 500 ''Error deleting item'') \<and>
      calls (deleteItem e req s) = [FindByIdAndDelete (params_id req)] \<and>
      store_after (deleteItem e req s) = s"
    by (simp add: deleteItem_failed)
  from l a d show ?thesis by blast
qed

text \<open>An unreachable store is one such failure, for each of the three calls.\<close>

lemma unreachable_store_calls_fail:
  assumes "\<not> reachable e"
  shows "Item_find e s = Inl StoreUnreachable"
    and "nonempty_string (item_name d) \<Longrightarrow> Item_save e d s = Inl StoreUnreachable"
    and "isl (Item_findByIdAndDelete e t s)"
  using assms
  by (simp_all add: Item_find_def Item_save_def Item_findByIdAndDelete_def split: option.splits)

theorem store_failure_is_500_witness:
  "Item_find \<lparr>reachable = False, generated_id = 2\<rparr> [\<lparr>item_id = 1, item_name = Str ''Milk''\<rparr>]
     = Inl StoreUnreachable \<and>
   reply (getItems \<lparr>reachable = False, generated_id = 2\<rparr>
      \<lparr>req_body = Some (Str ''Eggs''), params_id = ''000000000000000000000001''\<rparr>
      [\<lparr>item_id = 1, item_name = Str ''Milk''\<rparr>]) = Inr (Sent 500 ''Error fetching items'') \<and>
   Item_save \<lparr>reachable = False, generated_id = 2\<rparr>
      (new_Item \<lparr>reachable = False, generated_id = 2\<rparr> (Str ''Eggs''))
      [\<lparr>item_id = 1, item_name = Str ''Milk''\<rparr>] = Inl StoreUnreachable \<and>
   reply (addItem \<lparr>reachable = False, generated_id = 2\<rparr>
      \<lparr>req_body = Some (Str ''Eggs''), params_id = ''000000000000000000000001''\<rparr>
      [\<lparr>item_id = 1, item_name = Str ''Milk''\<rparr>]) = Inr (Sent 500 ''Error saving item'') \<and>
   Item_findByIdAndDelete \<lparr>reachable = False, generated_id = 2\<rparr> ''000000000000000000000001''
      [\<lparr>item_id = 1, item_name = Str ''Milk''\<rparr>] = Inl StoreUnreachable \<and>
   reply (deleteItem \<lparr>reachable = False, generated_id = 2\<rparr>
      \<lparr>req_body = Some (Str ''Eggs''), params_id = ''000000000000000000000001''\<rparr>
      [\<lparr>item_id = 1, item_name = Str ''Milk''\<rparr>]) = Inr (Sent 500 ''Error deleting item'')"
proof -
  have c: "castObjectId ''000000000000000000000001'' = Some 1" by code_simp
  have f: "Item_find \<lparr>reachable = False, generated_id = 2\<rparr>
      [\<lparr>item_id = 1, item_name = Str ''Milk''\<rparr>] = Inl StoreUnreachable"
    by (simp add: Item_find_def)
  have sv: "Item_save \<lparr>reachable = False, generated_id = 2\<rparr>
      (new_Item \<lparr>reachable = False, generated_id = 2\<rparr> (Str ''Eggs''))
      [\<lparr>item_id = 1, item_name = Str ''Milk''\<rparr>] = Inl StoreUnreachable"
    by (simp add: Item_save_def new_Item_def)
  have dl: "Item_findByIdAndDelete \<lparr>reachable = False, generated_id = 2\<rparr>
      ''000000000000000000000001'' [\<lparr>item_id = 1, item_name = Str ''Milk''\<rparr>]
      = Inl StoreUnreachable"
    by (simp add: Item_findByIdAndDelete_def c)
  show ?thesis
    using f sv dl
      store_failure_is_500 [of "\<lparr>reachable = False, generated_id = 2\<rparr>"
        "[\<lparr>item_id = 1, item_name = Str ''Milk''\<rparr>]" StoreUnreachable
        "\<lparr>req_body = Some (Str ''Eggs''), params_id = ''000000000000000000000001''\<rparr>"]
    by simp
qed

section \<open>Deleting\<close>

text \<open>
  Claim C10. Two Deletes of the same id whose store calls do not fail, on any two stores
  (in particular one that holds the id and one that does not), are answered alike, with the
  302 redirect to \<^verbatim>\<open>/\<close>.
\<close>

theorem delete_reply_independent_of_presence:
  assumes "Item_findByIdAndDelete e1 (params_id req) s1 = Inr r1"
      and "Item_findByIdAndDelete e2 (params_id req) s2 = Inr r2"
  shows "reply (deleteItem e1 req s1) = reply (deleteItem e2 req s2) \<and>
         reply (deleteItem e1 req s1) = Inr (Redirected 302 ''/'')"
proof -
  obtain f1 t1 where "r1 = (f1, t1)" by (cases r1)
  with assms(1) have a: "reply (deleteItem e1 req s1) = Inr (Redirected 302 ''/'')"
    by (simp add: deleteItem_done)
  obtain f2 t2 where "r2 = (f2, t2)" by (cases r2)
  with assms(2) have b: "reply (deleteItem e2 req s2) = Inr (Redirected 302 ''/'')"
    by (simp add: deleteItem_done)
  from a b show ?thesis by simp
qed

theorem delete_reply_independent_of_presence_witness:
  "Item_findByIdAndDelete \<lparr>reachable = True, generated_id = 2\<rparr> ''000000000000000000000001''
      [\<lparr>item_id = 1, item_name = Str ''Milk''\<rparr>]
     = Inr (Some \<lparr>item_id = 1, item_name = Str ''Milk''\<rparr>, []) \<and>
   Item_findByIdAndDelete \<lparr>reachable = True, generated_id = 2\<rparr> ''000000000000000000000001''
      [\<lparr>item_id = 5, item_name = Str ''Eggs''\<rparr>]
     = Inr (None, [\<lparr>item_id = 5, item_name = Str ''Eggs''\<rparr>]) \<and>
   reply (deleteItem \<lparr>reachable = True, generated_id = 2\<rparr>
      \<lparr>req_body = Some (Undefined), params_id = ''000000000000000000000001''\<rparr>
      [\<lparr>item_id = 1, item_name = Str ''Milk''\<rparr>])
     = reply (deleteItem \<lparr>reachable = True, generated_id = 2\<rparr>
      \<lparr>req_body = Some (Undefined), params_id = ''000000000000000000000001''\<rparr>
      [\<lparr>item_id = 5, item_name = Str ''Eggs''\<rparr>]) \<and>
   reply (deleteItem \<lparr>reachable = True, generated_id = 2\<rparr>
      \<lparr>req_body = Some (Undefined), params_id = ''000000000000000000000001''\<rparr>
      [\<lparr>item_id = 1, item_name = Str ''Milk''\<rparr>]) = Inr (Redirected 302 ''/'')"
proof -
  have c: "castObjectId ''000000000000000000000001'' = Some 1" by code_simp
  have p: "Item_findByIdAndDelete \<lparr>reachable = True, generated_id = 2\<rparr>
      (params_id \<lparr>req_body = Some (Undefined), params_id = ''000000000000000000000001''\<rparr>)
      [\<lparr>item_id = 1, item_name = Str ''Milk''\<rparr>]
     = Inr (Some \<lparr>item_id = 1, item_name = Str ''Milk''\<rparr>, [])"
    by (simp add: Item_findByIdAndDelete_def c)
  have a: "Item_findByIdAndDelete \<lparr>reachable = True, generated_id = 2\<rparr>
      (params_id \<lparr>req_body = Some (Undefined), params_id = ''000000000000000000000001''\<rparr>)
      [\<lparr>item_id = 5, item_name = Str ''Eggs''\<rparr>]
     = Inr (None, [\<lparr>item_id = 5, item_name = Str ''Eggs''\<rparr>])"
    by (simp add: Item_findByIdAndDelete_def c)
  from p have p': "Item_findByIdAndDelete \<lparr>reachable = True, generated_id = 2\<rparr>
      ''000000000000000000000001'' [\<lparr>item_id = 1, item_name = Str ''Milk''\<rparr>]
     = Inr (Some \<lparr>item_id = 1, item_name = Str ''Milk''\<rparr>, [])"
    by simp
  from a have a': "Item_findByIdAndDelete \<lparr>reachable = True, generated_id = 2\<rparr>
      ''000000000000000000000001'' [\<lparr>item_id = 5, item_name = Str ''Eggs''\<rparr>]
     = Inr (None, [\<lparr>item_id = 5, item_name = Str ''Eggs''\<rparr>])"
    by simp
  from delete_reply_independent_of_presence [OF p a] p' a' show ?thesis by blast
qed

text \<open>
  The unique index on identifiers is kept by every handler, so the stores that requests meet
  are those with \<open>unique_ids\<close>.
\<close>

lemma handle_unique_ids:
  "unique_ids s \<Longrightarrow> unique_ids (store_after (handle op e req s))"
proof (cases op)
  case ListOp
  assume "unique_ids s"
  with ListOp show ?thesis by (simp add: getItems_store)
next
  case AddOp
  assume inv: "unique_ids s"
  show ?thesis
  proof (cases "falsy (body_name req)")
    case True
    with inv AddOp show ?thesis by (simp add: addItem_falsy)
  next
    case False
    show ?thesis
    proof (cases "Item_save e (new_Item e (body_name req)) s")
      case (Inl err)
      with False inv AddOp show ?thesis by (simp add: addItem_failed)
    next
      case (Inr s')
      from Item_save_Inr [OF Inr] inv have "unique_ids s'"
        by (simp add: unique_ids_def)
      with False Inr AddOp show ?thesis by (simp add: addItem_saved)
    qed
  qed
next
  case DeleteOp
  assume "unique_ids s"
  with DeleteOp show ?thesis
    by (simp add: deleteItem_store unique_ids_def delete_first_distinct split: option.splits)
qed

lemma delete_first_twice:
  assumes "distinct (map item_id s)"
  shows "delete_first oid (delete_first oid s) = delete_first oid s"
proof -
  have "oid \<notin> set (map item_id (filter (\<lambda>d. item_id d \<noteq> oid) s))" by auto
  with assms have "oid \<notin> set (map item_id (delete_first oid s))"
    by (simp add: delete_first_filter)
  then show ?thesis by (rule delete_first_absent)
qed

text \<open>
  Claim C4, as the code has it. On a store with unique identifiers, a second Delete of the
  same id leaves the store as the first Delete left it, unless the store was unreachable for
  the first call and reachable for the second. A Delete whose id matches no item leaves the
  store unchanged. The reply is the 302 redirect to \<^verbatim>\<open>/\<close> when the id is the text of an
  identifier and the store is reachable, whether or not the id is present; when the id is
  no identifier or the store is unreachable the reply is status 500 with
  \<^verbatim>\<open>Error deleting item\<close>.
\<close>

theorem delete_idempotent:
  assumes "unique_ids s" and "reachable e1 \<or> \<not> reachable e2"
  shows "store_after (deleteItem e2 req (store_after (deleteItem e1 req s))) =
           store_after (deleteItem e1 req s) \<and>
         ((\<forall>d \<in> set s. castObjectId (params_id req) \<noteq> Some (item_id d)) \<longrightarrow>
            store_after (deleteItem e1 req s) = s) \<and>
         (castObjectId (params_id req) \<noteq> None \<and> reachable e1 \<longrightarrow>
            reply (deleteItem e1 req s) = Inr (Redirected 302 ''/'')) \<and>
         (castObjectId (params_id req) = None \<or> \<not> reachable e1 \<longrightarrow>
            reply (deleteItem e1 req s) = Inr (Sent 500 ''Error deleting item''))"
proof -
  from assms(1) have dist: "distinct (map item_id s)" by (simp add: unique_ids_def)
  have twice: "store_after (deleteItem e2 req (store_after (deleteItem e1 req s))) =
           store_after (deleteItem e1 req s)"
  proof (cases "castObjectId (params_id req)")
    case None
    then show ?thesis by (simp add: deleteItem_store)
  next
    case (Some oid)
    with assms(2) dist show ?thesis
      by (auto simp add: deleteItem_store delete_first_twice)
  qed
  have absent: "(\<forall>d \<in> set s. castObjectId (params_id req) \<noteq> Some (item_id d)) \<longrightarrow>
            store_after (deleteItem e1 req s) = s"
  proof
    assume a: "\<forall>d \<in> set s. castObjectId (params_id req) \<noteq> Some (item_id d)"
    show "store_after (deleteItem e1 req s) = s"
    proof (cases "castObjectId (params_id req)")
      case None
      then show ?thesis by (simp add: deleteItem_store)
    next
      case (Some oid)
      with a have "oid \<notin> set (map item_id s)" by auto
      then have "delete_first oid s = s" by (rule delete_first_absent)
      with Some show ?thesis by (simp add: deleteItem_store)
    qed
  qed
  have ok: "castObjectId (params_id req) \<noteq> None \<and> reachable e1 \<longrightarrow>
            reply (deleteItem e1 req s) = Inr (Redirected 302 ''/'')"
    by (simp add: deleteItem_reply)
  have err: "castObjectId (params_id req) = None \<or> \<not> reachable e1 \<longrightarrow>
            reply (deleteItem e1 req s) = Inr (Sent 500 ''Error deleting item'')"
    by (auto simp add: deleteItem_reply)
  from twice absent ok err show ?thesis by blast
qed

text \<open>
  C4 as stated fails: the id \<^verbatim>\<open>abc\<close> is present in no store, and Delete answers it with
  status 500 although the store is reachable; so does Delete of a well-formed absent id
  when the store is unreachable; and a Delete that did not reach the store, followed by
  one that does, empties a store that the first alone left as it was.
\<close>

theorem delete_idempotent_counterexample:
  "reply (deleteItem \<lparr>reachable = True, generated_id = 2\<rparr>
      \<lparr>req_body = Some (Undefined), params_id = ''abc''\<rparr> []) = Inr (Sent 500 ''Error deleting item'') \<and>
   reply (deleteItem \<lparr>reachable = False, generated_id = 2\<rparr>
      \<lparr>req_body = Some (Undefined), params_id = ''000000000000000000000001''\<rparr> [])
     = Inr (Sent 500 ''Error deleting item'') \<and>
   store_after (deleteItem \<lparr>reachable = True, generated_id = 2\<rparr>
      \<lparr>req_body = Some (Undefined), params_id = ''000000000000000000000001''\<rparr>
      (store_after (deleteItem \<lparr>reachable = False, generated_id = 2\<rparr>
         \<lparr>req_body = Some (Undefined), params_id = ''000000000000000000000001''\<rparr>
         [\<lparr>item_id = 1, item_name = Str ''Milk''\<rparr>]))) = [] \<and>
   store_after (deleteItem \<lparr>reachable = False, generated_id = 2\<rparr>
      \<lparr>req_body = Some (Undefined), params_id = ''000000000000000000000001''\<rparr>
      [\<lparr>item_id = 1, item_name = Str ''Milk''\<rparr>]) = [\<lparr>item_id = 1, item_name = Str ''Milk''\<rparr>]"
  by code_simp

theorem delete_idempotent_witness:
  "unique_ids [\<lparr>item_id = 1, item_name = Str ''Milk''\<rparr>, \<lparr>item_id = 5, item_name = Str ''Eggs''\<rparr>] \<and>
   store_after (deleteItem \<lparr>reachable = True, generated_id = 2\<rparr>
      \<lparr>req_body = Some (Undefined), params_id = ''000000000000000000000001''\<rparr>
      (store_after (deleteItem \<lparr>reachable = True, generated_id = 2\<rparr>
         \<lparr>req_body = Some (Undefined), params_id = ''000000000000000000000001''\<rparr>
         [\<lparr>item_id = 1, item_name = Str ''Milk''\<rparr>, \<lparr>item_id = 5, item_name = Str ''Eggs''\<rparr>])))
     = store_after (deleteItem \<lparr>reachable = True, generated_id = 2\<rparr>
         \<lparr>req_body = Some (Undefined), params_id = ''000000000000000000000001''\<rparr>
         [\<lparr>item_id = 1, item_name = Str ''Milk''\<rparr>, \<lparr>item_id = 5, item_name = Str ''Eggs''\<rparr>]) \<and>
   reply (deleteItem \<lparr>reachable = True, generated_id = 2\<rparr>
         \<lparr>req_body = Some (Undefined), params_id = ''000000000000000000000001''\<rparr>
         [\<lparr>item_id = 1, item_name = Str ''Milk''\<rparr>, \<lparr>item_id = 5, item_name = Str ''Eggs''\<rparr>])
     = Inr (Redirected 302 ''/'')"
proof -
  have c: "castObjectId ''000000000000000000000001'' = Some 1" by code_simp
  have u: "unique_ids [\<lparr>item_id = 1, item_name = Str ''Milk''\<rparr>,
                       \<lparr>item_id = 5, item_name = Str ''Eggs''\<rparr>]"
    by (simp add: unique_ids_def)
  have r: "reachable \<lparr>reachable = True, generated_id = 2\<rparr> \<or>
           \<not> reachable \<lparr>reachable = True, generated_id = 2\<rparr>"
    by simp
  from delete_idempotent [OF u r,
      of "\<lparr>req_body = Some (Undefined), params_id = ''000000000000000000000001''\<rparr>"] u c
  show ?thesis by simp
qed

text \<open>
  Claim C5, as the code has it. On a store with unique identifiers that holds an item
  with the given id, a Delete that reaches the store removes exactly that item: the id
  is no longer present, the count goes down by exactly one, and every other item stays,
  in its place.
\<close>

theorem delete_present_removes_one:
  assumes "unique_ids s" and "d \<in> set s"
      and "castObjectId (params_id req) = Some (item_id d)" and "reachable e"
  shows "store_after (deleteItem e req s) = filter (\<lambda>x. item_id x \<noteq> item_id d) s \<and>
         item_id d \<notin> set (map item_id (store_after (deleteItem e req s))) \<and>
         length (store_after (deleteItem e req s)) + 1 = length s \<and>
         mset (store_after (deleteItem e req s)) + {#d#} = mset s"
proof -
  from assms(1) have dist: "distinct (map item_id s)" by (simp add: unique_ids_def)
  from assms(3,4) have st: "store_after (deleteItem e req s) = delete_first (item_id d) s"
    by (simp add: deleteItem_store)
  from dist have fl: "delete_first (item_id d) s = filter (\<lambda>x. item_id x \<noteq> item_id d) s"
    by (rule delete_first_filter)
  from assms(2) dist have ms: "mset (delete_first (item_id d) s) + {#d#} = mset s"
    by (rule delete_first_present)
  then have "size (mset (delete_first (item_id d) s) + {#d#}) = size (mset s)" by simp
  then have ln: "length (delete_first (item_id d) s) + 1 = length s" by simp
  have gone: "item_id d \<notin> set (map item_id (filter (\<lambda>x. item_id x \<noteq> item_id d) s))" by auto
  from st fl ms ln gone show ?thesis by simp
qed

text \<open>
  C5 as stated fails when the store is unreachable: the item is still there, and the reply
  is status 500.
\<close>

theorem delete_present_removes_one_counterexample:
  "\<lparr>item_id = 1, item_name = Str ''Milk''\<rparr> \<in> set [\<lparr>item_id = 1, item_name = Str ''Milk''\<rparr>] \<and>
   castObjectId ''000000000000000000000001'' = Some 1 \<and>
   store_after (deleteItem \<lparr>reachable = False, generated_id = 2\<rparr>
      \<lparr>req_body = Some (Undefined), params_id = ''000000000000000000000001''\<rparr>
      [\<lparr>item_id = 1, item_name = Str ''Milk''\<rparr>]) = [\<lparr>item_id = 1, item_name = Str ''Milk''\<rparr>] \<and>
   reply (deleteItem \<lparr>reachable = False, generated_id = 2\<rparr>
      \<lparr>req_body = Some (Undefined), params_id = ''000000000000000000000001''\<rparr>
      [\<lparr>item_id = 1, item_name = Str ''Milk''\<rparr>]) = Inr (Sent 500 ''Error deleting item'')"
  by code_simp

theorem delete_present_removes_one_witness:
  "unique_ids [\<lparr>item_id = 1, item_name = Str ''Milk''\<rparr>, \<lparr>item_id = 5, item_name = Str ''Eggs''\<rparr>] \<and>
   castObjectId ''000000000000000000000001'' = Some 1 \<and>
   store_after (deleteItem \<lparr>reachable = True, generated_id = 2\<rparr>
         \<lparr>req_body = Some (Undefined), params_id = ''000000000000000000000001''\<rparr>
         [\<lparr>item_id = 1, item_name = Str ''Milk''\<rparr>, \<lparr>item_id = 5, item_name = Str ''Eggs''\<rparr>])
     = [\<lparr>item_id = 5, item_name = Str ''Eggs''\<rparr>]"
proof -
  have c: "castObjectId (params_id \<lparr>req_body = Some (Undefined), params_id = ''000000000000000000000001''\<rparr>)
      = Some (item_id \<lparr>item_id = 1, item_name = Str ''Milk''\<rparr>)" by code_simp
  have c': "castObjectId ''000000000000000000000001'' = Some 1" by code_simp
  have u: "unique_ids [\<lparr>item_id = 1, item_name = Str ''Milk''\<rparr>,
                       \<lparr>item_id = 5, item_name = Str ''Eggs''\<rparr>]"
    by (simp add: unique_ids_def)
  have m: "\<lparr>item_id = 1, item_name = Str ''Milk''\<rparr> \<in>
      set [\<lparr>item_id = 1, item_name = Str ''Milk''\<rparr>, \<lparr>item_id = 5, item_name = Str ''Eggs''\<rparr>]"
    by simp
  have r: "reachable \<lparr>reachable = True, generated_id = 2\<rparr>" by simp
  from delete_present_removes_one [OF u m c r] u c' show ?thesis by simp
qed

end
